theory Spec2Isabelle
  imports Main
begin

section \<open>Data model\<close>

text \<open>
  The values the stack handles come from two other packages: \<^verbatim>\<open>TextChange\<close> and
  \<^verbatim>\<open>ChangeType\<close> from jstextdiffpatch, \<^verbatim>\<open>TextSelection\<close> from jstextselection.
  Only the fields that \<^verbatim>\<open>texteditactionstack.js\<close> reads are kept. Positions and offsets
  are JavaScript numbers holding integers; they are modelled as \<open>int\<close>, so that
  \<^verbatim>\<open>lastTextChange.position - currentTextChange.text.length\<close> can be negative as it can
  in the source. A text is a \<open>string\<close> and \<^verbatim>\<open>.length\<close> is its \<open>length\<close>; the
  stack only concatenates texts, takes their length and tests them for line feeds, so
  the width of a character plays no part.
  The field \<^verbatim>\<open>text\<close> is written \<open>text'\<close> and \<^verbatim>\<open>end\<close> is written \<open>end'\<close>, the plain
  words being reserved.
\<close>

datatype ChangeType = added | removed

record TextChange =
  position :: int
  changeType :: ChangeType
  text' :: string

record TextSelection =
  start :: int
  end' :: int

text \<open>\<^verbatim>\<open>class TextEditAction\<close> of \<^verbatim>\<open>texteditaction.js\<close>; \<open>'id\<close> is the type of editor identities.\<close>

record 'id TextEditAction =
  editorIdentify :: 'id
  selectionBefore :: TextSelection
  selectionAfter :: TextSelection
  textChanges :: "TextChange list"

text \<open>\<^verbatim>\<open>TextEditActionType\<close> of \<^verbatim>\<open>texteditactiontype.js\<close>.\<close>

datatype TextEditActionType = update | restore

text \<open>
  One call of \<^verbatim>\<open>super.dispatch(name, {textEditActionType, textEditAction})\<close>. The
  event base class belongs to the package jsevent; a listener runs inside the call, so
  what it can read of the stack is the two histories as they are at that moment. The
  trace entry keeps them in \<open>undoSeen\<close> and \<open>redoSeen\<close>.
\<close>

record 'id Dispatched =
  eventName :: string
  actionType :: TextEditActionType
  action :: "'id TextEditAction"
  undoSeen :: "'id TextEditAction list"
  redoSeen :: "'id TextEditAction list"

text \<open>
  The fields of \<^verbatim>\<open>class TextEditActionStack\<close>: \<open>thisIdentify\<close> is
  \<^verbatim>\<open>this.editorIdentify\<close>, the two arrays are the histories (most recent last), and
  \<open>dispatched\<close> is the trace of the notifications sent so far.
\<close>

record 'id TextEditActionStack =
  thisIdentify :: 'id
  undoActions :: "'id TextEditAction list"
  redoActions :: "'id TextEditAction list"
  dispatched :: "'id Dispatched list"

text \<open>The object returned by \<^verbatim>\<open>applyTextEditAction\<close> and by the external update.\<close>

record ApplyResult =
  textContent :: string
  selection :: TextSelection

text \<open>The object returned by \<^verbatim>\<open>undo\<close> and \<^verbatim>\<open>redo\<close>.\<close>

record 'id RestoreResult = ApplyResult +
  textEditAction :: "'id TextEditAction"

text \<open>Reading a property of \<^verbatim>\<open>undefined\<close> throws.\<close>

datatype error = TypeError

section \<open>The stack\<close>

definition constructor :: "'id \<Rightarrow> 'id TextEditActionStack" where
  "constructor ident =
     \<lparr>thisIdentify = ident, undoActions = [], redoActions = [], dispatched = []\<rparr>"

definition clear :: "'id TextEditActionStack \<Rightarrow> 'id TextEditActionStack" where
  "clear this = this\<lparr>undoActions := [], redoActions := []\<rparr>"

definition canUndo :: "'id TextEditActionStack \<Rightarrow> bool" where
  "canUndo this = (length (undoActions this) > 0)"

definition canRedo :: "'id TextEditActionStack \<Rightarrow> bool" where
  "canRedo this = (length (redoActions this) > 0)"

definition dispatch ::
  "string \<Rightarrow> TextEditActionType \<Rightarrow> 'id TextEditAction \<Rightarrow>
     'id TextEditActionStack \<Rightarrow> 'id TextEditActionStack" where
  "dispatch name ty a this =
     this\<lparr>dispatched := dispatched this @
       [\<lparr>eventName = name, actionType = ty, action = a,
         undoSeen = undoActions this, redoSeen = redoActions this\<rparr>]\<rparr>"

text \<open>The test \<^verbatim>\<open>/^\n+$/.test(s)\<close>: one or more characters, each a line feed.\<close>

definition newlines :: "string \<Rightarrow> bool" where
  "newlines s = (s \<noteq> [] \<and> list_all (\<lambda>c. c = CHR 0x0A) s)"

text \<open>
  The last two statements of \<^verbatim>\<open>pushIntoUndoStack\<close>: a new action is built and pushed on
  the undo array (already popped or not by the branch taken), the redo array is emptied.
\<close>

definition pushAndClear ::
  "'id \<Rightarrow> TextSelection \<Rightarrow> TextSelection \<Rightarrow> TextChange list \<Rightarrow>
     'id TextEditAction list \<Rightarrow> 'id TextEditActionStack \<Rightarrow> 'id TextEditActionStack" where
  "pushAndClear ident sb sa changes undos this =
     this\<lparr>undoActions := undos @
         [\<lparr>editorIdentify = ident, selectionBefore = sb, selectionAfter = sa,
           textChanges = changes\<rparr>],
       redoActions := []\<rparr>"

text \<open>
  \<^verbatim>\<open>pushIntoUndoStack(currentTextEditAction)\<close>. \<open>equals a b\<close> is \<^verbatim>\<open>a.equals(b)\<close>, the
  method every identity class overrides. \<^verbatim>\<open>textChanges[0]\<close> of an empty array and the
  last element of an empty array are \<^verbatim>\<open>undefined\<close>, and reading \<^verbatim>\<open>.text\<close> of them
  throws before the stack is touched; the second operand of \<^verbatim>\<open>||\<close> is only read when
  the first test fails.
\<close>

definition pushIntoUndoStack ::
  "('id \<Rightarrow> 'id \<Rightarrow> bool) \<Rightarrow> 'id TextEditAction \<Rightarrow> 'id TextEditActionStack \<Rightarrow>
     error + 'id TextEditActionStack" where
  "pushIntoUndoStack equals currentTextEditAction this =
    (let ident = editorIdentify currentTextEditAction;
         changes = textChanges currentTextEditAction;
         sb = selectionBefore currentTextEditAction;
         sa = selectionAfter currentTextEditAction
     in
     if length (undoActions this) = 0 \<or>
        length changes > 1 \<or>
        start sa \<noteq> end' sa \<or>
        \<not> equals ident (editorIdentify (last (undoActions this)))
     then Inr (pushAndClear ident sb sa changes (undoActions this) this)
     else
       (let lastTextEditAction = last (undoActions this);
            lastTextChanges = textChanges lastTextEditAction
        in
        case changes of
          [] \<Rightarrow> Inl TypeError
        | currentTextChange # _ \<Rightarrow>
            if newlines (text' currentTextChange)
            then Inr (pushAndClear ident sb sa [currentTextChange] (undoActions this) this)
            else if lastTextChanges = [] then Inl TypeError
            else
              (let lastTextChange = last lastTextChanges in
               if newlines (text' lastTextChange)
               then Inr (pushAndClear ident sb sa [currentTextChange] (undoActions this) this)
               else if changeType lastTextChange = added \<and>
                       changeType currentTextChange = added
               then
                 (if position currentTextChange =
                       position lastTextChange + int (length (text' lastTextChange))
                  then Inr (pushAndClear ident (selectionBefore lastTextEditAction) sa
                         (butlast lastTextChanges @
                            [\<lparr>position = position lastTextChange, changeType = added,
                              text' = text' lastTextChange @ text' currentTextChange\<rparr>])
                         (butlast (undoActions this)) this)
                  else Inr (pushAndClear ident sb sa [currentTextChange]
                         (undoActions this) this))
               else if changeType lastTextChange = removed \<and>
                       changeType currentTextChange = removed
               then
                 (if position currentTextChange = position lastTextChange
                  then Inr (pushAndClear ident (selectionBefore lastTextEditAction) sa
                         (butlast lastTextChanges @
                            [\<lparr>position = position lastTextChange, changeType = removed,
                              text' = text' lastTextChange @ text' currentTextChange\<rparr>])
                         (butlast (undoActions this)) this)
                  else if position currentTextChange =
                       position lastTextChange - int (length (text' currentTextChange))
                  then Inr (pushAndClear ident (selectionBefore lastTextEditAction) sa
                         (butlast lastTextChanges @
                            [\<lparr>position = position currentTextChange, changeType = removed,
                              text' = text' currentTextChange @ text' lastTextChange\<rparr>])
                         (butlast (undoActions this)) this)
                  else Inr (pushAndClear ident sb sa [currentTextChange]
                         (undoActions this) this))
               else Inr (pushAndClear ident sb sa [currentTextChange]
                      (undoActions this) this))))"

text \<open>
  \<^verbatim>\<open>updateByTextChanges\<close>: the action is built and dispatched, then pushed. When the
  push throws, the notification has been sent already and nothing is returned.
\<close>

definition updateByTextChanges ::
  "('id \<Rightarrow> 'id \<Rightarrow> bool) \<Rightarrow> TextChange list \<Rightarrow> TextSelection \<Rightarrow> TextSelection \<Rightarrow>
     'id TextEditActionStack \<Rightarrow> 'id TextEditActionStack \<times> (error + 'id TextEditAction)" where
  "updateByTextChanges equals changes lastSelection sel this =
    (let a = \<lparr>editorIdentify = thisIdentify this, selectionBefore = lastSelection,
               selectionAfter = sel, textChanges = changes\<rparr>;
         this1 = dispatch ''actionCreate'' update a this
     in case pushIntoUndoStack equals a this1 of
          Inl e \<Rightarrow> (this1, Inl e)
        | Inr this2 \<Rightarrow> (this2, Inr a))"

text \<open>
  \<^verbatim>\<open>update\<close>, written \<open>update'\<close> beside the action type of that name; \<open>diff\<close> is
  \<^verbatim>\<open>TextDiffPatch.diff\<close>.
\<close>

definition update' ::
  "(string \<Rightarrow> string \<Rightarrow> TextChange list) \<Rightarrow> ('id \<Rightarrow> 'id \<Rightarrow> bool) \<Rightarrow>
     string \<Rightarrow> string \<Rightarrow> TextSelection \<Rightarrow> TextSelection \<Rightarrow>
     'id TextEditActionStack \<Rightarrow> 'id TextEditActionStack \<times> (error + 'id TextEditAction)" where
  "update' diff equals lastTextContent content lastSelection sel this =
     updateByTextChanges equals (diff lastTextContent content) lastSelection sel this"

text \<open>
  \<^verbatim>\<open>updateAndApplyByExternalTextEditAction\<close>; \<open>patch\<close> is \<^verbatim>\<open>TextDiffPatch.apply\<close> and
  \<open>cursor\<close> is \<^verbatim>\<open>CursorPatch.apply\<close>.
\<close>

definition updateAndApplyByExternalTextEditAction ::
  "(string \<Rightarrow> TextChange list \<Rightarrow> string) \<Rightarrow>
   (TextSelection \<Rightarrow> TextChange list \<Rightarrow> TextSelection) \<Rightarrow>
   ('id \<Rightarrow> 'id \<Rightarrow> bool) \<Rightarrow> 'id TextEditAction \<Rightarrow> string \<Rightarrow> TextSelection \<Rightarrow>
     'id TextEditActionStack \<Rightarrow> 'id TextEditActionStack \<times> (error + ApplyResult)" where
  "updateAndApplyByExternalTextEditAction patch cursor equals a lastTextContent
       lastSelection this =
    (let content = patch lastTextContent (textChanges a)
     in case pushIntoUndoStack equals a this of
          Inl e \<Rightarrow> (this, Inl e)
        | Inr this1 \<Rightarrow>
            (this1, Inr \<lparr>textContent = content,
                         selection = cursor lastSelection (textChanges a)\<rparr>))"

definition applyTextEditAction ::
  "(string \<Rightarrow> TextChange list \<Rightarrow> string) \<Rightarrow> 'id TextEditAction \<Rightarrow> string \<Rightarrow> ApplyResult" where
  "applyTextEditAction patch a lastTextContent =
     \<lparr>textContent = patch lastTextContent (textChanges a), selection = selectionAfter a\<rparr>"

text \<open>\<^verbatim>\<open>reverseAction\<close>; \<open>rev_changes\<close> is \<^verbatim>\<open>TextDiffPatch.reverse\<close>.\<close>

definition reverseAction ::
  "(TextChange list \<Rightarrow> TextChange list) \<Rightarrow> 'id TextEditAction \<Rightarrow> 'id TextEditAction" where
  "reverseAction rev_changes a =
     \<lparr>editorIdentify = editorIdentify a, selectionBefore = selectionAfter a,
      selectionAfter = selectionBefore a, textChanges = rev_changes (textChanges a)\<rparr>"

text \<open>The action rebuilt under the stack's own identity, as \<^verbatim>\<open>undo\<close> and \<^verbatim>\<open>redo\<close> do.\<close>

definition repack :: "'id TextEditActionStack \<Rightarrow> 'id TextEditAction \<Rightarrow> 'id TextEditAction" where
  "repack this a =
     \<lparr>editorIdentify = thisIdentify this, selectionBefore = selectionBefore a,
      selectionAfter = selectionAfter a, textChanges = textChanges a\<rparr>"

text \<open>\<^verbatim>\<open>undo\<close>: \<open>None\<close> is the bare \<^verbatim>\<open>return\<close> of the empty case.\<close>

definition undo ::
  "(string \<Rightarrow> TextChange list \<Rightarrow> string) \<Rightarrow> (TextChange list \<Rightarrow> TextChange list) \<Rightarrow>
     string \<Rightarrow> 'id TextEditActionStack \<Rightarrow>
     'id TextEditActionStack \<times> 'id RestoreResult option" where
  "undo patch rev_changes lastTextContent this =
    (if \<not> canUndo this then (this, None)
     else
       (let a = last (undoActions this);
            this1 = this\<lparr>undoActions := butlast (undoActions this)\<rparr>;
            repackedTextEditAction = repack this1 a;
            this2 = this1\<lparr>redoActions := redoActions this1 @ [repackedTextEditAction]\<rparr>;
            reverseTextEditAction = reverseAction rev_changes repackedTextEditAction;
            r = applyTextEditAction patch reverseTextEditAction lastTextContent;
            this3 = dispatch ''actionCreate'' restore reverseTextEditAction this2
        in (this3, Some \<lparr>textContent = textContent r, selection = selection r,
                          textEditAction = reverseTextEditAction\<rparr>)))"

text \<open>\<^verbatim>\<open>redo\<close>.\<close>

definition redo ::
  "(string \<Rightarrow> TextChange list \<Rightarrow> string) \<Rightarrow> string \<Rightarrow> 'id TextEditActionStack \<Rightarrow>
     'id TextEditActionStack \<times> 'id RestoreResult option" where
  "redo patch lastTextContent this =
    (if \<not> canRedo this then (this, None)
     else
       (let a = last (redoActions this);
            this1 = this\<lparr>redoActions := butlast (redoActions this)\<rparr>;
            repackedTextEditAction = repack this1 a;
            this2 = this1\<lparr>undoActions := undoActions this1 @ [repackedTextEditAction]\<rparr>;
            r = applyTextEditAction patch repackedTextEditAction lastTextContent;
            this3 = dispatch ''actionCreate'' restore repackedTextEditAction this2
        in (this3, Some \<lparr>textContent = textContent r, selection = selection r,
                          textEditAction = repackedTextEditAction\<rparr>)))"

section \<open>Reachable states\<close>

text \<open>
  The states a stack of the editor \<open>ident\<close> can be in: created by the constructor, then
  any sequence of calls of its public methods. \<open>ext\<close> is the set of identities that
  the actions received from other editors carry. The collaborators' functions are
  arbitrary at every call.
\<close>

inductive reachable ::
  "('id \<Rightarrow> 'id \<Rightarrow> bool) \<Rightarrow> 'id \<Rightarrow> 'id set \<Rightarrow> 'id TextEditActionStack \<Rightarrow> bool"
  for equals :: "'id \<Rightarrow> 'id \<Rightarrow> bool" and ident :: 'id and ext :: "'id set" where
  created: "reachable equals ident ext (constructor ident)"
| cleared: "reachable equals ident ext this \<Longrightarrow> reachable equals ident ext (clear this)"
| updated: "reachable equals ident ext this \<Longrightarrow>
     reachable equals ident ext (fst (updateByTextChanges equals changes lastSelection sel this))"
| received: "reachable equals ident ext this \<Longrightarrow> editorIdentify a \<in> ext \<Longrightarrow>
     reachable equals ident ext
       (fst (updateAndApplyByExternalTextEditAction patch cursor equals a content
          lastSelection this))"
| undone: "reachable equals ident ext this \<Longrightarrow>
     reachable equals ident ext (fst (undo patch rev_changes content this))"
| redone: "reachable equals ident ext this \<Longrightarrow>
     reachable equals ident ext (fst (redo patch content this))"

section \<open>Sample values\<close>

text \<open>
  Concrete selections, changes, actions and runs of the stack, on which the theorems
  below are instantiated. \<open>caret p\<close> is \<^verbatim>\<open>new TextSelection(p)\<close>, a collapsed selection.
\<close>

definition caret :: "int \<Rightarrow> TextSelection" where
  "caret p = \<lparr>start = p, end' = p\<rparr>"

definition change :: "int \<Rightarrow> ChangeType \<Rightarrow> string \<Rightarrow> TextChange" where
  "change p k s = \<lparr>position = p, changeType = k, text' = s\<rparr>"

definition edit :: "'id \<Rightarrow> int \<Rightarrow> int \<Rightarrow> TextChange list \<Rightarrow> 'id TextEditAction" where
  "edit ident p q cs =
     \<lparr>editorIdentify = ident, selectionBefore = caret p, selectionAfter = caret q,
      textChanges = cs\<rparr>"

text \<open>
  The stack after a local edit with the changes \<open>cs\<close>, the caret moving from \<open>p\<close>
  to \<open>q\<close>; identities are compared by \<open>(=)\<close>.
\<close>

definition local_edit ::
  "int \<Rightarrow> int \<Rightarrow> TextChange list \<Rightarrow> nat TextEditActionStack \<Rightarrow> nat TextEditActionStack" where
  "local_edit p q cs this =
     fst (updateByTextChanges (=) cs (caret p) (caret q) this)"

text \<open>
  A small stand-in for the text-patch package, to run \<^verbatim>\<open>undo\<close> and \<^verbatim>\<open>redo\<close> on concrete
  texts: an added change inserts its text at its position, a removed change deletes
  as many characters as its text has; the inverse of a sequence is the reversed
  sequence with the kinds swapped.
\<close>

definition sample_patch1 :: "string \<Rightarrow> TextChange \<Rightarrow> string" where
  "sample_patch1 t c =
     (if changeType c = added
      then take (nat (position c)) t @ text' c @ drop (nat (position c)) t
      else take (nat (position c)) t @ drop (nat (position c) + length (text' c)) t)"

definition sample_patch :: "string \<Rightarrow> TextChange list \<Rightarrow> string" where
  "sample_patch t cs = foldl sample_patch1 t cs"

definition sample_reverse :: "TextChange list \<Rightarrow> TextChange list" where
  "sample_reverse cs =
     map (\<lambda>c. c\<lparr>changeType := (if changeType c = added then removed else added)\<rparr>) (rev cs)"

text \<open>A stand-in for the cursor adjustment: the selection moves by the length added.\<close>

definition sample_cursor :: "TextSelection \<Rightarrow> TextChange list \<Rightarrow> TextSelection" where
  "sample_cursor sel cs =
     (let d = (\<Sum>c\<leftarrow>cs. if changeType c = added then int (length (text' c))
                          else - int (length (text' c)))
      in \<lparr>start = start sel + d, end' = end' sel + d\<rparr>)"

section \<open>The merge policy of \<^verbatim>\<open>pushIntoUndoStack\<close>\<close>

lemma single_change_action:
  "textChanges a = [c] \<Longrightarrow>
   \<lparr>editorIdentify = editorIdentify a, selectionBefore = selectionBefore a,
      selectionAfter = selectionAfter a, textChanges = [c]\<rparr> = (a :: 'id TextEditAction)"
  by (cases a) simp

lemma push_frame:
  assumes "pushIntoUndoStack equals a this = Inr this'"
  shows "redoActions this' = [] \<and> dispatched this' = dispatched this \<and>
     thisIdentify this' = thisIdentify this"
  using assms
  by (auto simp add: pushIntoUndoStack_def pushAndClear_def Let_def
      split: if_splits list.splits)

lemma push_identities:
  assumes "pushIntoUndoStack equals a this = Inr this'" and "b \<in> set (undoActions this')"
  shows "editorIdentify b = editorIdentify a \<or> b \<in> set (undoActions this)"
  using assms
  by (auto simp add: pushIntoUndoStack_def pushAndClear_def Let_def
      split: if_splits list.splits dest: in_set_butlastD)

lemma push_returns:
  assumes "textChanges a \<noteq> []"
    and "undoActions this \<noteq> [] \<longrightarrow> textChanges (last (undoActions this)) \<noteq> []"
  shows "\<exists>this'. pushIntoUndoStack equals a this = Inr this'"
  using assms
  by (auto simp add: pushIntoUndoStack_def Let_def split: list.splits)

lemmas sample_defs =
  caret_def change_def edit_def local_edit_def constructor_def updateByTextChanges_def
  dispatch_def pushIntoUndoStack_def pushAndClear_def newlines_def Let_def

text \<open>
  Claim C5. When the undo history is empty, or the candidate has more than one change,
  or its \<open>selectionAfter\<close> is not collapsed, or the candidate's identity does not equal
  (by \<open>equals\<close>) the identity of the top of the undo history, the candidate is appended
  as a new top entry with its fields as they are, the earlier entries stay, and the
  redo history becomes empty.
\<close>

theorem append_unchanged:
  assumes "undoActions this = [] \<or> length (textChanges a) > 1 \<or>
     start (selectionAfter a) \<noteq> end' (selectionAfter a) \<or>
     \<not> equals (editorIdentify a) (editorIdentify (last (undoActions this)))"
  shows "pushIntoUndoStack equals a this =
     Inr (this\<lparr>undoActions := undoActions this @ [a], redoActions := []\<rparr>)"
  using assms by (auto simp add: pushIntoUndoStack_def pushAndClear_def Let_def)

theorem append_unchanged_witness:
  "\<not> (2::nat) = 1 \<and>
   pushIntoUndoStack (=) (edit 2 1 2 [change 1 added ''b''])
       (local_edit 0 1 [change 0 added ''a''] (constructor 1)) =
     Inr ((local_edit 0 1 [change 0 added ''a''] (constructor 1))
       \<lparr>undoActions := [edit 1 0 1 [change 0 added ''a''], edit 2 1 2 [change 1 added ''b'']],
        redoActions := []\<rparr>)"
proof -
  let ?stack = "local_edit 0 1 [change 0 added ''a''] (constructor 1)"
  let ?a = "edit (2::nat) 1 2 [change 1 added ''b'']"
  have h: "undoActions ?stack = [] \<or> length (textChanges ?a) > 1 \<or>
     start (selectionAfter ?a) \<noteq> end' (selectionAfter ?a) \<or>
     \<not> (editorIdentify ?a) = (editorIdentify (last (undoActions ?stack)))"
    by (simp add: sample_defs)
  from append_unchanged [where equals = "(=)", OF h] show ?thesis
    by (simp add: sample_defs)
qed

text \<open>
  Claim C6. A candidate with a single change \<open>c\<close>, a collapsed \<open>selectionAfter\<close> and
  the identity of the top entry, on a non-empty undo history whose top has a last change
  \<open>l\<close>, neither text being made of line feeds only, both changes of kind \<open>added\<close>:
  the candidate folds exactly when \<open>position c = position l + length (text l)\<close>. The
  folded entry replaces the top; its last change is at \<open>position l\<close>, of kind \<open>added\<close>,
  with the text of \<open>l\<close> followed by the text of \<open>c\<close>; its \<open>selectionBefore\<close> is the
  one of the previous top and its \<open>selectionAfter\<close> the candidate's. Otherwise the
  candidate is appended as it is. The witness is the run of the claim: typing \<open>a\<close>,
  \<open>b\<close>, \<open>c\<close> at positions 0, 1, 2 leaves one entry with the text \<open>abc\<close>.
\<close>

theorem added_fold:
  assumes "undoActions this \<noteq> []" and "lastAction = last (undoActions this)"
    and "textChanges a = [c]"
    and "start (selectionAfter a) = end' (selectionAfter a)"
    and "equals (editorIdentify a) (editorIdentify lastAction)"
    and "textChanges lastAction \<noteq> []" and "l = last (textChanges lastAction)"
    and "\<not> newlines (text' c)" and "\<not> newlines (text' l)"
    and "changeType l = added" and "changeType c = added"
  shows "pushIntoUndoStack equals a this =
     Inr (if position c = position l + int (length (text' l))
          then this\<lparr>undoActions := butlast (undoActions this) @
                   [\<lparr>editorIdentify = editorIdentify a,
                     selectionBefore = selectionBefore lastAction,
                     selectionAfter = selectionAfter a,
                     textChanges = butlast (textChanges lastAction) @
                       [\<lparr>position = position l, changeType = added,
                         text' = text' l @ text' c\<rparr>]\<rparr>],
                 redoActions := []\<rparr>
          else this\<lparr>undoActions := undoActions this @ [a], redoActions := []\<rparr>)"
  using assms single_change_action [of a c]
  by (simp add: pushIntoUndoStack_def pushAndClear_def Let_def)

theorem added_fold_witness:
  "undoActions (local_edit 1 2 [change 1 added ''b'']
       (local_edit 0 1 [change 0 added ''a''] (constructor 1))) =
     [edit 1 0 2 [change 0 added ''ab'']] \<and>
   pushIntoUndoStack (=) (edit 1 2 3 [change 2 added ''c''])
       (local_edit 1 2 [change 1 added ''b'']
         (local_edit 0 1 [change 0 added ''a''] (constructor 1))) =
     Inr ((local_edit 1 2 [change 1 added ''b'']
            (local_edit 0 1 [change 0 added ''a''] (constructor 1)))
       \<lparr>undoActions := [edit 1 0 3 [change 0 added ''abc'']], redoActions := []\<rparr>) \<and>
   undoActions (local_edit 2 3 [change 2 added ''c'']
       (local_edit 1 2 [change 1 added ''b'']
         (local_edit 0 1 [change 0 added ''a''] (constructor 1)))) =
     [edit 1 0 3 [change 0 added ''abc'']]"
proof -
  let ?stack = "local_edit 1 2 [change 1 added ''b'']
         (local_edit 0 1 [change 0 added ''a''] (constructor 1))"
  let ?a = "edit (1::nat) 2 3 [change 2 added ''c'']"
  let ?lastAction = "edit (1::nat) 0 2 [change 0 added ''ab'']"
  let ?c = "change 2 added ''c''"
  let ?l = "change 0 added ''ab''"
  have hs: "undoActions ?stack \<noteq> []" "?lastAction = last (undoActions ?stack)"
    "textChanges ?a = [?c]" "start (selectionAfter ?a) = end' (selectionAfter ?a)"
    "editorIdentify ?a = editorIdentify ?lastAction"
    "textChanges ?lastAction \<noteq> []" "?l = last (textChanges ?lastAction)"
    "\<not> newlines (text' ?c)" "\<not> newlines (text' ?l)"
    "changeType ?l = added" "changeType ?c = added"
    by (simp_all add: sample_defs)
  from added_fold [where equals = "(=)", OF hs] show ?thesis
    by (simp add: sample_defs)
qed

text \<open>
  Claim C7. The same candidate when both changes are of kind \<open>removed\<close>. At
  \<open>position c = position l\<close> (forward delete) the fold has the text of \<open>l\<close> followed by
  the text of \<open>c\<close>, at \<open>position l\<close>; at \<open>position c = position l - length (text c)\<close>
  (backspace) it has the text of \<open>c\<close> followed by the text of \<open>l\<close>, at \<open>position c\<close>;
  in both, \<open>selectionBefore\<close> is the one of the previous top. At any other position the
  candidate is appended as it is. When both equations hold the text of \<open>c\<close> is empty,
  and the two folds are the same entry.
\<close>

theorem removed_fold:
  assumes "undoActions this \<noteq> []" and "lastAction = last (undoActions this)"
    and "textChanges a = [c]"
    and "start (selectionAfter a) = end' (selectionAfter a)"
    and "equals (editorIdentify a) (editorIdentify lastAction)"
    and "textChanges lastAction \<noteq> []" and "l = last (textChanges lastAction)"
    and "\<not> newlines (text' c)" and "\<not> newlines (text' l)"
    and "changeType l = removed" and "changeType c = removed"
  shows "pushIntoUndoStack equals a this =
     Inr (if position c = position l
          then this\<lparr>undoActions := butlast (undoActions this) @
                   [\<lparr>editorIdentify = editorIdentify a,
                     selectionBefore = selectionBefore lastAction,
                     selectionAfter = selectionAfter a,
                     textChanges = butlast (textChanges lastAction) @
                       [\<lparr>position = position l, changeType = removed,
                         text' = text' l @ text' c\<rparr>]\<rparr>],
                 redoActions := []\<rparr>
          else if position c = position l - int (length (text' c))
          then this\<lparr>undoActions := butlast (undoActions this) @
                   [\<lparr>editorIdentify = editorIdentify a,
                     selectionBefore = selectionBefore lastAction,
                     selectionAfter = selectionAfter a,
                     textChanges = butlast (textChanges lastAction) @
                       [\<lparr>position = position c, changeType = removed,
                         text' = text' c @ text' l\<rparr>]\<rparr>],
                 redoActions := []\<rparr>
          else this\<lparr>undoActions := undoActions this @ [a], redoActions := []\<rparr>)"
  using assms single_change_action [of a c]
  by (simp add: pushIntoUndoStack_def pushAndClear_def Let_def)

theorem removed_fold_witness:
  "pushIntoUndoStack (=) (edit 1 0 0 [change 0 removed ''b''])
       (local_edit 0 0 [change 0 removed ''a''] (constructor 1)) =
     Inr ((local_edit 0 0 [change 0 removed ''a''] (constructor 1))
       \<lparr>undoActions := [edit 1 0 0 [change 0 removed ''ab'']], redoActions := []\<rparr>) \<and>
   pushIntoUndoStack (=) (edit 1 2 1 [change 1 removed ''b''])
       (local_edit 3 2 [change 2 removed ''c''] (constructor 1)) =
     Inr ((local_edit 3 2 [change 2 removed ''c''] (constructor 1))
       \<lparr>undoActions := [edit 1 3 1 [change 1 removed ''bc'']], redoActions := []\<rparr>) \<and>
   pushIntoUndoStack (=) (edit 1 0 0 [change 0 removed ''a''])
       (local_edit 3 2 [change 2 removed ''c''] (constructor 1)) =
     Inr ((local_edit 3 2 [change 2 removed ''c''] (constructor 1))
       \<lparr>undoActions := [edit 1 3 2 [change 2 removed ''c''],
                        edit 1 0 0 [change 0 removed ''a'']], redoActions := []\<rparr>)"
proof -
  let ?del = "local_edit 0 0 [change 0 removed ''a''] (constructor 1)"
  let ?bs = "local_edit 3 2 [change 2 removed ''c''] (constructor 1)"
  let ?delAction = "edit (1::nat) 0 0 [change 0 removed ''a'']"
  let ?bsAction = "edit (1::nat) 3 2 [change 2 removed ''c'']"
  let ?a1 = "edit (1::nat) 0 0 [change 0 removed ''b'']"
  let ?a2 = "edit (1::nat) 2 1 [change 1 removed ''b'']"
  let ?a3 = "edit (1::nat) 0 0 [change 0 removed ''a'']"
  have h1: "undoActions ?del \<noteq> []" "?delAction = last (undoActions ?del)"
    "textChanges ?a1 = [change 0 removed ''b'']"
    "start (selectionAfter ?a1) = end' (selectionAfter ?a1)"
    "editorIdentify ?a1 = editorIdentify ?delAction"
    "textChanges ?delAction \<noteq> []" "change 0 removed ''a'' = last (textChanges ?delAction)"
    "\<not> newlines (text' (change 0 removed ''b''))"
    "\<not> newlines (text' (change 0 removed ''a''))"
    "changeType (change 0 removed ''a'') = removed"
    "changeType (change 0 removed ''b'') = removed"
    by (simp_all add: sample_defs)
  have h2: "undoActions ?bs \<noteq> []" "?bsAction = last (undoActions ?bs)"
    "textChanges ?a2 = [change 1 removed ''b'']"
    "start (selectionAfter ?a2) = end' (selectionAfter ?a2)"
    "editorIdentify ?a2 = editorIdentify ?bsAction"
    "textChanges ?bsAction \<noteq> []" "change 2 removed ''c'' = last (textChanges ?bsAction)"
    "\<not> newlines (text' (change 1 removed ''b''))"
    "\<not> newlines (text' (change 2 removed ''c''))"
    "changeType (change 2 removed ''c'') = removed"
    "changeType (change 1 removed ''b'') = removed"
    by (simp_all add: sample_defs)
  have h3: "undoActions ?bs \<noteq> []" "?bsAction = last (undoActions ?bs)"
    "textChanges ?a3 = [change 0 removed ''a'']"
    "start (selectionAfter ?a3) = end' (selectionAfter ?a3)"
    "editorIdentify ?a3 = editorIdentify ?bsAction"
    "textChanges ?bsAction \<noteq> []" "change 2 removed ''c'' = last (textChanges ?bsAction)"
    "\<not> newlines (text' (change 0 removed ''a''))"
    "\<not> newlines (text' (change 2 removed ''c''))"
    "changeType (change 2 removed ''c'') = removed"
    "changeType (change 0 removed ''a'') = removed"
    by (simp_all add: sample_defs)
  from removed_fold [where equals = "(=)", OF h1] removed_fold [where equals = "(=)", OF h2]
    removed_fold [where equals = "(=)", OF h3]
  show ?thesis
    by (simp add: sample_defs)
qed

text \<open>
  Claim C8. For a candidate with a single change \<open>c\<close>, a collapsed \<open>selectionAfter\<close>
  and the identity of the top entry, on a non-empty undo history: when the text of \<open>c\<close>
  is one or more line feeds and nothing else, or the top's last change exists and its
  text is, nothing is folded. The previous top stays and the candidate is appended as
  it is, whatever the kinds and positions.
\<close>

theorem newline_never_folds:
  assumes "undoActions this \<noteq> []" and "lastAction = last (undoActions this)"
    and "textChanges a = [c]"
    and "start (selectionAfter a) = end' (selectionAfter a)"
    and "equals (editorIdentify a) (editorIdentify lastAction)"
    and "newlines (text' c) \<or>
         (textChanges lastAction \<noteq> [] \<and> newlines (text' (last (textChanges lastAction))))"
  shows "pushIntoUndoStack equals a this =
     Inr (this\<lparr>undoActions := undoActions this @ [a], redoActions := []\<rparr>)"
  using assms single_change_action [of a c]
  by (auto simp add: pushIntoUndoStack_def pushAndClear_def Let_def)

theorem newline_never_folds_witness:
  "newlines [CHR 0x0A] \<and>
   pushIntoUndoStack (=) (edit 1 1 2 [change 1 added [CHR 0x0A]])
       (local_edit 0 1 [change 0 added ''a''] (constructor 1)) =
     Inr ((local_edit 0 1 [change 0 added ''a''] (constructor 1))
       \<lparr>undoActions := [edit 1 0 1 [change 0 added ''a''],
                        edit 1 1 2 [change 1 added [CHR 0x0A]]], redoActions := []\<rparr>) \<and>
   pushIntoUndoStack (=) (edit 1 1 2 [change 1 added ''b''])
       (local_edit 0 1 [change 0 added [CHR 0x0A]] (constructor 1)) =
     Inr ((local_edit 0 1 [change 0 added [CHR 0x0A]] (constructor 1))
       \<lparr>undoActions := [edit 1 0 1 [change 0 added [CHR 0x0A]],
                        edit 1 1 2 [change 1 added ''b'']], redoActions := []\<rparr>)"
proof -
  let ?t1 = "local_edit 0 1 [change 0 added ''a''] (constructor 1)"
  let ?t2 = "local_edit 0 1 [change 0 added [CHR 0x0A]] (constructor 1)"
  let ?l1 = "edit (1::nat) 0 1 [change 0 added ''a'']"
  let ?l2 = "edit (1::nat) 0 1 [change 0 added [CHR 0x0A]]"
  let ?a1 = "edit (1::nat) 1 2 [change 1 added [CHR 0x0A]]"
  let ?a2 = "edit (1::nat) 1 2 [change 1 added ''b'']"
  have h1: "undoActions ?t1 \<noteq> []" "?l1 = last (undoActions ?t1)"
    "textChanges ?a1 = [change 1 added [CHR 0x0A]]"
    "start (selectionAfter ?a1) = end' (selectionAfter ?a1)"
    "editorIdentify ?a1 = editorIdentify ?l1"
    "newlines (text' (change 1 added [CHR 0x0A])) \<or>
       (textChanges ?l1 \<noteq> [] \<and> newlines (text' (last (textChanges ?l1))))"
    by (simp_all add: sample_defs)
  have h2: "undoActions ?t2 \<noteq> []" "?l2 = last (undoActions ?t2)"
    "textChanges ?a2 = [change 1 added ''b'']"
    "start (selectionAfter ?a2) = end' (selectionAfter ?a2)"
    "editorIdentify ?a2 = editorIdentify ?l2"
    "newlines (text' (change 1 added ''b'')) \<or>
       (textChanges ?l2 \<noteq> [] \<and> newlines (text' (last (textChanges ?l2))))"
    by (simp_all add: sample_defs)
  from newline_never_folds [where equals = "(=)", OF h1]
    newline_never_folds [where equals = "(=)", OF h2]
  show ?thesis
    by (simp add: sample_defs)
qed

text \<open>
  Claim C10. Whenever the merge policy folds (contiguous insertion, forward delete or
  backspace) and the previous top has more than one change, the folded entry's changes
  are the previous top's with only the last one replaced by the combined change: the
  earlier changes stay, in order. The undo history is as long after the fold as before,
  and its entries under the top stay.
\<close>

theorem fold_keeps_earlier_changes:
  assumes "undoActions this \<noteq> []" and "lastAction = last (undoActions this)"
    and "textChanges a = [c]"
    and "start (selectionAfter a) = end' (selectionAfter a)"
    and "equals (editorIdentify a) (editorIdentify lastAction)"
    and "1 < length (textChanges lastAction)" and "l = last (textChanges lastAction)"
    and "\<not> newlines (text' c)" and "\<not> newlines (text' l)"
    and "(changeType l = added \<and> changeType c = added \<and>
            position c = position l + int (length (text' l)) \<and>
            combined = \<lparr>position = position l, changeType = added,
                         text' = text' l @ text' c\<rparr>)
         \<or> (changeType l = removed \<and> changeType c = removed \<and>
            position c = position l \<and>
            combined = \<lparr>position = position l, changeType = removed,
                         text' = text' l @ text' c\<rparr>)
         \<or> (changeType l = removed \<and> changeType c = removed \<and>
            position c = position l - int (length (text' c)) \<and>
            combined = \<lparr>position = position c, changeType = removed,
                         text' = text' c @ text' l\<rparr>)"
  shows "\<exists>this'. pushIntoUndoStack equals a this = Inr this' \<and>
     length (undoActions this') = length (undoActions this) \<and>
     butlast (undoActions this') = butlast (undoActions this) \<and>
     textChanges (last (undoActions this')) = butlast (textChanges lastAction) @ [combined] \<and>
     length (textChanges (last (undoActions this'))) = length (textChanges lastAction) \<and>
     take (length (textChanges lastAction) - 1) (textChanges (last (undoActions this'))) =
       take (length (textChanges lastAction) - 1) (textChanges lastAction)"
proof -
  have ne: "textChanges lastAction \<noteq> []" using assms(6) by auto
  have len: "length (butlast (textChanges lastAction) @ [combined]) =
      length (textChanges lastAction)"
    using ne by simp
  have tk: "take (length (textChanges lastAction) - 1)
        (butlast (textChanges lastAction) @ [combined]) =
      take (length (textChanges lastAction) - 1) (textChanges lastAction)"
    using ne by (simp add: butlast_conv_take)
  from assms(10) show ?thesis
  proof (elim disjE conjE)
    assume "changeType l = added" "changeType c = added"
      "position c = position l + int (length (text' l))"
      "combined = \<lparr>position = position l, changeType = added, text' = text' l @ text' c\<rparr>"
    then show ?thesis
      using assms(1-9) ne len tk
      by (simp add: pushIntoUndoStack_def pushAndClear_def Let_def)
  next
    assume "changeType l = removed" "changeType c = removed"
      "position c = position l"
      "combined = \<lparr>position = position l, changeType = removed, text' = text' l @ text' c\<rparr>"
    then show ?thesis
      using assms(1-9) ne len tk
      by (simp add: pushIntoUndoStack_def pushAndClear_def Let_def)
  next
    assume *: "changeType l = removed" "changeType c = removed"
      "position c = position l - int (length (text' c))"
      "combined = \<lparr>position = position c, changeType = removed, text' = text' c @ text' l\<rparr>"
    show ?thesis
    proof (cases "position c = position l")
      case True
      with *(3) have "text' c = []" by simp
      with True * show ?thesis
        using assms(1-9) ne len tk
        by (simp add: pushIntoUndoStack_def pushAndClear_def Let_def)
    next
      case False
      with * show ?thesis
        using assms(1-9) ne len tk
        by (simp add: pushIntoUndoStack_def pushAndClear_def Let_def)
    qed
  qed
qed

theorem fold_keeps_earlier_changes_witness:
  "(1::nat) < length [change 0 added ''x'', change 5 added ''y''] \<and>
   pushIntoUndoStack (=) (edit (1::nat) 6 7 [change 6 added ''z''])
       (local_edit 6 6 [change 0 added ''x'', change 5 added ''y''] (constructor 1)) =
     Inr ((local_edit 6 6 [change 0 added ''x'', change 5 added ''y''] (constructor 1))
       \<lparr>undoActions := [edit 1 6 7 [change 0 added ''x'', change 5 added ''yz'']],
        redoActions := []\<rparr>)"
proof -
  let ?stack = "local_edit 6 6 [change 0 added ''x'', change 5 added ''y''] (constructor 1)"
  let ?lastAction = "edit (1::nat) 6 6 [change 0 added ''x'', change 5 added ''y'']"
  let ?a = "edit (1::nat) 6 7 [change 6 added ''z'']"
  let ?c = "change 6 added ''z''"
  let ?l = "change 5 added ''y''"
  let ?combined = "change 5 added ''yz''"
  have hs: "undoActions ?stack \<noteq> []" "?lastAction = last (undoActions ?stack)"
    "textChanges ?a = [?c]" "start (selectionAfter ?a) = end' (selectionAfter ?a)"
    "editorIdentify ?a = editorIdentify ?lastAction"
    "1 < length (textChanges ?lastAction)" "?l = last (textChanges ?lastAction)"
    "\<not> newlines (text' ?c)" "\<not> newlines (text' ?l)"
    "(changeType ?l = added \<and> changeType ?c = added \<and>
            position ?c = position ?l + int (length (text' ?l)) \<and>
            ?combined = \<lparr>position = position ?l, changeType = added,
                         text' = text' ?l @ text' ?c\<rparr>)
         \<or> (changeType ?l = removed \<and> changeType ?c = removed \<and>
            position ?c = position ?l \<and>
            ?combined = \<lparr>position = position ?l, changeType = removed,
                         text' = text' ?l @ text' ?c\<rparr>)
         \<or> (changeType ?l = removed \<and> changeType ?c = removed \<and>
            position ?c = position ?l - int (length (text' ?c)) \<and>
            ?combined = \<lparr>position = position ?c, changeType = removed,
                         text' = text' ?c @ text' ?l\<rparr>)"
    by (simp_all add: sample_defs)
  from fold_keeps_earlier_changes [where equals = "(=)", OF hs] show ?thesis
    by (simp add: sample_defs)
qed

section \<open>Undo and redo\<close>

text \<open>What \<^verbatim>\<open>undo\<close> and \<^verbatim>\<open>redo\<close> do on a history that is not empty, in one equation each.\<close>

lemma undo_nonempty:
  fixes this :: "'id TextEditActionStack"
  assumes "undoActions this \<noteq> []"
  shows "undo patch rev_changes content this =
    (this\<lparr>undoActions := butlast (undoActions this),
          redoActions := redoActions this @ [repack this (last (undoActions this))],
          dispatched := dispatched this @
            [\<lparr>eventName = ''actionCreate'', actionType = restore,
              action = reverseAction rev_changes (repack this (last (undoActions this))),
              undoSeen = butlast (undoActions this),
              redoSeen = redoActions this @ [repack this (last (undoActions this))]\<rparr>]\<rparr>,
     Some \<lparr>textContent = patch content (rev_changes (textChanges (last (undoActions this)))),
           selection = selectionBefore (last (undoActions this)),
           textEditAction = reverseAction rev_changes (repack this (last (undoActions this)))\<rparr>)"
  using assms
  by (simp add: undo_def canUndo_def Let_def repack_def reverseAction_def
      applyTextEditAction_def dispatch_def)

lemma redo_nonempty:
  fixes this :: "'id TextEditActionStack"
  assumes "redoActions this \<noteq> []"
  shows "redo patch content this =
    (this\<lparr>redoActions := butlast (redoActions this),
          undoActions := undoActions this @ [repack this (last (redoActions this))],
          dispatched := dispatched this @
            [\<lparr>eventName = ''actionCreate'', actionType = restore,
              action = repack this (last (redoActions this)),
              undoSeen = undoActions this @ [repack this (last (redoActions this))],
              redoSeen = butlast (redoActions this)\<rparr>]\<rparr>,
     Some \<lparr>textContent = patch content (textChanges (last (redoActions this))),
           selection = selectionAfter (last (redoActions this)),
           textEditAction = repack this (last (redoActions this))\<rparr>)"
  using assms
  by (simp add: redo_def canRedo_def Let_def repack_def
      applyTextEditAction_def dispatch_def)

text \<open>
  Claim C3. \<^verbatim>\<open>undo\<close> on an empty undo history returns nothing and leaves the stack as
  it is. Otherwise it pops the top entry, rebuilds it under the stack's own identity,
  pushes that on the redo history, builds the reversal (the two selections swapped, the
  changes replaced by the patch package's inverse), applies the reversal to the given
  text, dispatches one \<^verbatim>\<open>actionCreate\<close> notification of type \<open>restore\<close> carrying the
  reversal, and returns the new text, the reversal's \<open>selectionAfter\<close> and the
  reversal.
\<close>

theorem undo_pops_reverses_notifies:
  fixes this :: "'id TextEditActionStack"
  shows "(\<not> canUndo this \<longrightarrow> undo patch rev_changes content this = (this, None)) \<and>
    (canUndo this \<longrightarrow>
      (let a = last (undoActions this);
           repacked = \<lparr>editorIdentify = thisIdentify this,
                       selectionBefore = selectionBefore a,
                       selectionAfter = selectionAfter a,
                       textChanges = textChanges a\<rparr>;
           reversal = \<lparr>editorIdentify = thisIdentify this,
                       selectionBefore = selectionAfter a,
                       selectionAfter = selectionBefore a,
                       textChanges = rev_changes (textChanges a)\<rparr>
       in undo patch rev_changes content this =
         (this\<lparr>undoActions := butlast (undoActions this),
               redoActions := redoActions this @ [repacked],
               dispatched := dispatched this @
                 [\<lparr>eventName = ''actionCreate'', actionType = restore, action = reversal,
                   undoSeen = butlast (undoActions this),
                   redoSeen = redoActions this @ [repacked]\<rparr>]\<rparr>,
          Some \<lparr>textContent = patch content (textChanges reversal),
                selection = selectionAfter reversal,
                textEditAction = reversal\<rparr>)))"
  by (simp add: undo_def canUndo_def Let_def repack_def reverseAction_def
      applyTextEditAction_def dispatch_def)

theorem undo_pops_reverses_notifies_witness:
  "canUndo (local_edit 0 2 [change 0 added ''ab''] (constructor 1)) \<and>
   undo sample_patch sample_reverse ''ab''
       (local_edit 0 2 [change 0 added ''ab''] (constructor 1)) =
     ((local_edit 0 2 [change 0 added ''ab''] (constructor 1))
        \<lparr>undoActions := [], redoActions := [edit 1 0 2 [change 0 added ''ab'']],
         dispatched := dispatched (local_edit 0 2 [change 0 added ''ab''] (constructor 1)) @
           [\<lparr>eventName = ''actionCreate'', actionType = restore,
             action = edit 1 2 0 [change 0 removed ''ab''],
             undoSeen = [], redoSeen = [edit 1 0 2 [change 0 added ''ab'']]\<rparr>]\<rparr>,
      Some \<lparr>textContent = '''', selection = caret 0,
            textEditAction = edit 1 2 0 [change 0 removed ''ab'']\<rparr>) \<and>
   \<not> canUndo (constructor (1::nat)) \<and>
   undo sample_patch sample_reverse ''ab'' (constructor (1::nat)) = (constructor 1, None)"
proof -
  let ?stack = "local_edit 0 2 [change 0 added ''ab''] (constructor 1)"
  have h1: "canUndo ?stack" by (simp add: canUndo_def sample_defs)
  have h2: "\<not> canUndo (constructor (1::nat))" by (simp add: canUndo_def sample_defs)
  note u = undo_pops_reverses_notifies [where this = ?stack and patch = sample_patch
      and rev_changes = sample_reverse and content = "''ab''"]
  note e = undo_pops_reverses_notifies [where this = "constructor (1::nat)"
      and patch = sample_patch and rev_changes = sample_reverse and content = "''ab''"]
  from u [THEN conjunct2, THEN mp, OF h1] e [THEN conjunct1, THEN mp, OF h2] h1 h2
  show ?thesis
    by (simp add: sample_defs sample_patch_def sample_patch1_def sample_reverse_def)
qed

text \<open>
  Claim C4. When \<^verbatim>\<open>canUndo\<close> holds and \<open>s\<close> is the text obtained by applying the top
  entry's changes to an earlier text \<open>t\<close>, and the patch package keeps its contract at
  \<open>t\<close> and these changes (applying them and then their inverse gives \<open>t\<close> back),
  \<^verbatim>\<open>undo\<close> on \<open>s\<close> followed by \<^verbatim>\<open>redo\<close> on the text \<^verbatim>\<open>undo\<close> returned gives \<open>s\<close>
  again, with the selection the entry recorded after the edit. The undo history is back
  to what it was, the top rebuilt under the stack's own identity, and the redo history
  is as before the undo.
\<close>

theorem redo_after_undo_restores:
  assumes "canUndo this" and "a = last (undoActions this)"
    and "s = patch t (textChanges a)"
    and "patch (patch t (textChanges a)) (rev_changes (textChanges a)) = t"
  shows "\<exists>this1 r1 this2 r2.
     undo patch rev_changes s this = (this1, Some r1) \<and>
     redo patch (textContent r1) this1 = (this2, Some r2) \<and>
     textContent r1 = t \<and>
     textContent r2 = s \<and>
     selection r2 = selectionAfter a \<and>
     textEditAction r2 = a\<lparr>editorIdentify := thisIdentify this\<rparr> \<and>
     undoActions this2 =
       butlast (undoActions this) @ [a\<lparr>editorIdentify := thisIdentify this\<rparr>] \<and>
     redoActions this2 = redoActions this"
proof -
  have ne: "undoActions this \<noteq> []"
    using assms(1) by (simp add: canUndo_def)
  define b where "b = repack this a"
  define this1 where "this1 = fst (undo patch rev_changes s this)"
  define r1 where "r1 = the (snd (undo patch rev_changes s this))"
  have u: "undo patch rev_changes s this = (this1, Some r1)"
    unfolding this1_def r1_def by (simp add: undo_nonempty [OF ne])
  have f1: "redoActions this1 = redoActions this @ [b]"
    "undoActions this1 = butlast (undoActions this)" "thisIdentify this1 = thisIdentify this"
    unfolding this1_def b_def assms(2) by (simp_all add: undo_nonempty [OF ne])
  have c1: "textContent r1 = t"
    unfolding r1_def using assms(2-4) by (simp add: undo_nonempty [OF ne])
  have ne1: "redoActions this1 \<noteq> []"
    using f1 by simp
  define this2 where "this2 = fst (redo patch (textContent r1) this1)"
  define r2 where "r2 = the (snd (redo patch (textContent r1) this1))"
  have r: "redo patch (textContent r1) this1 = (this2, Some r2)"
    unfolding this2_def r2_def by (simp add: redo_nonempty [OF ne1])
  have bb: "repack this1 b = b" "b = a\<lparr>editorIdentify := thisIdentify this\<rparr>"
    "textChanges b = textChanges a" "selectionAfter b = selectionAfter a"
    unfolding b_def using f1(3) by (simp_all add: repack_def)
  have c2: "textContent r2 = s" "selection r2 = selectionAfter a" "textEditAction r2 = b"
    unfolding r2_def using f1 c1 bb assms(3) by (simp_all add: redo_nonempty [OF ne1])
  have f2: "undoActions this2 = butlast (undoActions this) @ [b]"
    "redoActions this2 = redoActions this"
    unfolding this2_def using f1 bb by (simp_all add: redo_nonempty [OF ne1])
  show ?thesis
    apply (rule exI [of _ this1], rule exI [of _ r1])
    apply (rule exI [of _ this2], rule exI [of _ r2])
    using u r c1 c2 f2 bb(2) by simp
qed

theorem redo_after_undo_restores_witness:
  "canUndo (local_edit 1 2 [change 1 added ''b''] (constructor 1)) \<and>
   sample_patch ''ac'' [change 1 added ''b''] = ''abc'' \<and>
   sample_patch ''abc'' (sample_reverse [change 1 added ''b'']) = ''ac'' \<and>
   map_option textContent
     (snd (redo sample_patch ''ac''
        (fst (undo sample_patch sample_reverse ''abc''
           (local_edit 1 2 [change 1 added ''b''] (constructor 1)))))) = Some ''abc'' \<and>
   map_option selection
     (snd (redo sample_patch ''ac''
        (fst (undo sample_patch sample_reverse ''abc''
           (local_edit 1 2 [change 1 added ''b''] (constructor 1)))))) = Some (caret 2)"
proof -
  let ?stack = "local_edit 1 2 [change 1 added ''b''] (constructor 1)"
  let ?a = "edit (1::nat) 1 2 [change 1 added ''b'']"
  have hs: "canUndo ?stack" "?a = last (undoActions ?stack)"
    "''abc'' = sample_patch ''ac'' (textChanges ?a)"
    "sample_patch (sample_patch ''ac'' (textChanges ?a)) (sample_reverse (textChanges ?a)) = ''ac''"
    by (simp_all add: canUndo_def sample_defs sample_patch_def sample_patch1_def
        sample_reverse_def)
  from redo_after_undo_restores [where patch = sample_patch and rev_changes = sample_reverse
      and t = "''ac''", OF hs]
  obtain this1 r1 this2 r2 where
    u: "undo sample_patch sample_reverse ''abc'' ?stack = (this1, Some r1)" and
    r: "redo sample_patch (textContent r1) this1 = (this2, Some r2)" and
    c: "textContent r1 = ''ac''" "textContent r2 = ''abc''" "selection r2 = selectionAfter ?a"
    by (elim exE conjE)
  have r': "redo sample_patch ''ac'' this1 = (this2, Some r2)"
    using r c(1) by simp
  have sel: "selection r2 = caret 2"
    using c(3) by (simp add: edit_def)
  have p: "sample_patch ''ac'' [change 1 added ''b''] = ''abc''"
    "sample_patch ''abc'' (sample_reverse [change 1 added ''b'']) = ''ac''"
    by (simp_all add: change_def sample_patch_def sample_patch1_def sample_reverse_def)
  show ?thesis
    using hs(1) p u r' c(2) sel by simp
qed

section \<open>Local edits\<close>

text \<open>
  Claim C9. Every call of \<^verbatim>\<open>updateByTextChanges\<close> (and of \<^verbatim>\<open>update\<close>, which calls it
  with the changes the diff returns) dispatches exactly one \<^verbatim>\<open>actionCreate\<close>
  notification of type \<open>update\<close>. Its payload is the candidate built from the stack's
  identity, the two selections and the changes, not merged with anything; it is sent
  before the merge policy touches the histories, so a listener sees them as they were
  before the call. This part holds for every call. When the changes are not empty, and
  the top of the undo history (if any) has changes, as the data model has it, the call
  returns that same candidate, and the stack it leaves is the merge policy's result on
  the candidate.
\<close>

theorem update_notifies_unmerged_candidate:
  fixes this :: "'id TextEditActionStack"
  shows "(let cand = \<lparr>editorIdentify = thisIdentify this, selectionBefore = lastSelection,
                       selectionAfter = sel, textChanges = changes\<rparr>;
              sent = this\<lparr>dispatched := dispatched this @
                       [\<lparr>eventName = ''actionCreate'', actionType = update, action = cand,
                         undoSeen = undoActions this, redoSeen = redoActions this\<rparr>]\<rparr>;
              r = updateByTextChanges equals changes lastSelection sel this
          in dispatched (fst r) = dispatched sent \<and>
             (changes \<noteq> [] \<and>
              (undoActions this \<noteq> [] \<longrightarrow> textChanges (last (undoActions this)) \<noteq> [])
              \<longrightarrow> snd r = Inr cand \<and> pushIntoUndoStack equals cand sent = Inr (fst r)) \<and>
             (changes = diff lastTextContent content \<longrightarrow>
                update' diff equals lastTextContent content lastSelection sel this = r))"
proof -
  define cand where "cand = \<lparr>editorIdentify = thisIdentify this,
      selectionBefore = lastSelection, selectionAfter = sel, textChanges = changes\<rparr>"
  define sent where "sent = dispatch ''actionCreate'' update cand this"
  define r where "r = updateByTextChanges equals changes lastSelection sel this"
  have r: "r = (case pushIntoUndoStack equals cand sent of
                  Inl e \<Rightarrow> (sent, Inl e) | Inr this2 \<Rightarrow> (this2, Inr cand))"
    unfolding r_def sent_def cand_def updateByTextChanges_def Let_def by (rule refl)
  have sent: "sent = this\<lparr>dispatched := dispatched this @
       [\<lparr>eventName = ''actionCreate'', actionType = update, action = cand,
         undoSeen = undoActions this, redoSeen = redoActions this\<rparr>]\<rparr>"
    by (simp add: sent_def dispatch_def)
  have d: "dispatched (fst r) = dispatched sent"
    using push_frame [of equals cand sent] by (cases "pushIntoUndoStack equals cand sent") (auto simp add: r)
  have ret: "snd r = Inr cand \<and> pushIntoUndoStack equals cand sent = Inr (fst r)"
    if "changes \<noteq> []"
      and "undoActions this \<noteq> [] \<longrightarrow> textChanges (last (undoActions this)) \<noteq> []"
  proof -
    have "textChanges cand \<noteq> []" using that(1) by (simp add: cand_def)
    moreover have "undoActions sent \<noteq> [] \<longrightarrow> textChanges (last (undoActions sent)) \<noteq> []"
      using that(2) by (simp add: sent)
    ultimately obtain this2 where "pushIntoUndoStack equals cand sent = Inr this2"
      using push_returns [of cand sent equals] by blast
    then show ?thesis by (simp add: r)
  qed
  have u: "update' diff equals lastTextContent content lastSelection sel this = r"
    if "changes = diff lastTextContent content"
    using that by (simp add: update'_def r_def)
  show ?thesis
    using d ret u unfolding Let_def cand_def [symmetric] sent [symmetric] r_def [symmetric]
    by blast
qed

theorem update_notifies_unmerged_candidate_witness:
  "[change 1 added ''b''] \<noteq> [] \<and>
   snd (updateByTextChanges (=) [change 1 added ''b''] (caret 1) (caret 2)
          (local_edit 0 1 [change 0 added ''a''] (constructor 1))) =
     Inr (edit 1 1 2 [change 1 added ''b'']) \<and>
   undoActions (fst (updateByTextChanges (=) [change 1 added ''b''] (caret 1) (caret 2)
          (local_edit 0 1 [change 0 added ''a''] (constructor 1)))) =
     [edit 1 0 2 [change 0 added ''ab'']] \<and>
   dispatched (fst (updateByTextChanges (=) [change 1 added ''b''] (caret 1) (caret 2)
          (local_edit 0 1 [change 0 added ''a''] (constructor 1)))) =
     dispatched (local_edit 0 1 [change 0 added ''a''] (constructor 1)) @
     [\<lparr>eventName = ''actionCreate'', actionType = update,
       action = edit 1 1 2 [change 1 added ''b''],
       undoSeen = [edit 1 0 1 [change 0 added ''a'']], redoSeen = []\<rparr>]"
proof -
  let ?stack = "local_edit 0 1 [change 0 added ''a''] (constructor 1)"
  note t = update_notifies_unmerged_candidate [where this = ?stack and equals = "(=)"
      and changes = "[change 1 added ''b'']" and lastSelection = "caret 1" and sel = "caret 2",
      unfolded Let_def]
  have h: "[change 1 added ''b''] \<noteq> [] \<and>
      (undoActions ?stack \<noteq> [] \<longrightarrow> textChanges (last (undoActions ?stack)) \<noteq> [])"
    by (simp add: sample_defs)
  from t [THEN conjunct1] t [THEN conjunct2, THEN conjunct1, THEN mp, OF h]
  show ?thesis
    by (simp add: sample_defs)
qed

text \<open>
  Outside the data model: a call with no changes, on a history whose top would be
  tested for a fold, throws after the notification has been sent.
\<close>

lemma update_without_changes_throws:
  "updateByTextChanges (=) [] (caret 1) (caret 1)
       (local_edit 0 1 [change 0 added ''a''] (constructor 1)) =
     (dispatch ''actionCreate'' update (edit 1 1 1 [])
        (local_edit 0 1 [change 0 added ''a''] (constructor 1)),
      Inl TypeError)"
  by (simp add: sample_defs)

section \<open>Edits received from another editor\<close>

text \<open>
  Claim C1, as the code has it. \<^verbatim>\<open>updateAndApplyByExternalTextEditAction\<close> passes the
  received action to \<^verbatim>\<open>pushIntoUndoStack\<close>, the merge policy of a local edit, and
  dispatches nothing. Whenever the push returns, the redo history is empty afterwards
  and the call returns the patched text and the adjusted selection. When the undo
  history is empty, or the action has more than one change, or its \<open>selectionAfter\<close>
  is not collapsed, or its identity does not equal the identity of the top entry, the
  action is appended as received, under its own identity; an \<^verbatim>\<open>undo\<close> right after pops
  that entry and returns its reversal, rebuilt under the stack's own identity.
\<close>

theorem external_edit_runs_merge_policy:
  fixes this :: "'id TextEditActionStack"
  shows "(let r = updateAndApplyByExternalTextEditAction patch cursor equals a content
                    lastSelection this
          in (case pushIntoUndoStack equals a this of
                Inl e \<Rightarrow> r = (this, Inl e)
              | Inr this' \<Rightarrow>
                  r = (this', Inr \<lparr>textContent = patch content (textChanges a),
                                   selection = cursor lastSelection (textChanges a)\<rparr>) \<and>
                  redoActions this' = [] \<and> dispatched this' = dispatched this) \<and>
             (undoActions this = [] \<or> 1 < length (textChanges a) \<or>
              start (selectionAfter a) \<noteq> end' (selectionAfter a) \<or>
              \<not> equals (editorIdentify a) (editorIdentify (last (undoActions this)))
              \<longrightarrow>
                fst r = this\<lparr>undoActions := undoActions this @ [a], redoActions := []\<rparr> \<and>
                snd (undo patch rev_changes content' (fst r)) =
                  Some \<lparr>textContent = patch content' (rev_changes (textChanges a)),
                        selection = selectionBefore a,
                        textEditAction =
                          \<lparr>editorIdentify = thisIdentify this,
                           selectionBefore = selectionAfter a,
                           selectionAfter = selectionBefore a,
                           textChanges = rev_changes (textChanges a)\<rparr>\<rparr> \<and>
                undoActions (fst (undo patch rev_changes content' (fst r))) =
                  undoActions this))"
proof -
  define r where "r = updateAndApplyByExternalTextEditAction patch cursor equals a content
                    lastSelection this"
  have part1: "case pushIntoUndoStack equals a this of
                Inl e \<Rightarrow> r = (this, Inl e)
              | Inr this' \<Rightarrow>
                  r = (this', Inr \<lparr>textContent = patch content (textChanges a),
                                   selection = cursor lastSelection (textChanges a)\<rparr>) \<and>
                  redoActions this' = [] \<and> dispatched this' = dispatched this"
  proof (cases "pushIntoUndoStack equals a this")
    case (Inl e)
    then show ?thesis
      by (simp add: r_def updateAndApplyByExternalTextEditAction_def)
  next
    case (Inr this')
    then show ?thesis
      using push_frame [OF Inr]
      by (simp add: r_def updateAndApplyByExternalTextEditAction_def)
  qed
  have part2: "fst r = this\<lparr>undoActions := undoActions this @ [a], redoActions := []\<rparr> \<and>
      snd (undo patch rev_changes content' (fst r)) =
        Some \<lparr>textContent = patch content' (rev_changes (textChanges a)),
              selection = selectionBefore a,
              textEditAction =
                \<lparr>editorIdentify = thisIdentify this,
                 selectionBefore = selectionAfter a,
                 selectionAfter = selectionBefore a,
                 textChanges = rev_changes (textChanges a)\<rparr>\<rparr> \<and>
      undoActions (fst (undo patch rev_changes content' (fst r))) = undoActions this"
    if c: "undoActions this = [] \<or> 1 < length (textChanges a) \<or>
        start (selectionAfter a) \<noteq> end' (selectionAfter a) \<or>
        \<not> equals (editorIdentify a) (editorIdentify (last (undoActions this)))"
  proof -
    have p: "pushIntoUndoStack equals a this =
        Inr (this\<lparr>undoActions := undoActions this @ [a], redoActions := []\<rparr>)"
      using c by (auto simp add: pushIntoUndoStack_def pushAndClear_def Let_def)
    have f: "fst r = this\<lparr>undoActions := undoActions this @ [a], redoActions := []\<rparr>"
      by (simp add: r_def updateAndApplyByExternalTextEditAction_def p)
    have ne: "undoActions (fst r) \<noteq> []"
      by (simp add: f)
    show ?thesis
      by (simp add: undo_nonempty [OF ne]) (simp add: f repack_def reverseAction_def)
  qed
  show ?thesis
    using part1 part2 unfolding Let_def r_def [symmetric] by blast
qed

theorem external_edit_runs_merge_policy_witness:
  "\<not> (2::nat) = 1 \<and>
   fst (updateAndApplyByExternalTextEditAction sample_patch sample_cursor (=)
          (edit 2 1 2 [change 1 added ''b'']) ''a'' (caret 1)
          (local_edit 0 1 [change 0 added ''a''] (constructor 1))) =
     (local_edit 0 1 [change 0 added ''a''] (constructor 1))
       \<lparr>undoActions := [edit 1 0 1 [change 0 added ''a''], edit 2 1 2 [change 1 added ''b'']],
        redoActions := []\<rparr> \<and>
   snd (undo sample_patch sample_reverse ''ab''
     (fst (updateAndApplyByExternalTextEditAction sample_patch sample_cursor (=)
          (edit 2 1 2 [change 1 added ''b'']) ''a'' (caret 1)
          (local_edit 0 1 [change 0 added ''a''] (constructor 1))))) =
     Some \<lparr>textContent = ''a'', selection = caret 1,
           textEditAction = edit 1 2 1 [change 1 removed ''b'']\<rparr>"
proof -
  let ?stack = "local_edit 0 1 [change 0 added ''a''] (constructor 1)"
  let ?a = "edit (2::nat) 1 2 [change 1 added ''b'']"
  note t = external_edit_runs_merge_policy [where this = ?stack and equals = "(=)" and a = ?a
      and patch = sample_patch and cursor = sample_cursor and rev_changes = sample_reverse
      and content = "''a''" and content' = "''ab''" and lastSelection = "caret 1",
      unfolded Let_def]
  have h: "undoActions ?stack = [] \<or> 1 < length (textChanges ?a) \<or>
      start (selectionAfter ?a) \<noteq> end' (selectionAfter ?a) \<or>
      \<not> (editorIdentify ?a) = (editorIdentify (last (undoActions ?stack)))"
    by (simp add: sample_defs)
  have p: "sample_patch ''ab'' (sample_reverse [change 1 added ''b'']) = ''a''"
    by (simp add: change_def sample_patch_def sample_patch1_def sample_reverse_def)
  from t [THEN conjunct2, THEN mp, OF h] p
  show ?thesis
    by (simp add: sample_defs sample_reverse_def updateAndApplyByExternalTextEditAction_def
        undo_def canUndo_def repack_def reverseAction_def applyTextEditAction_def)
qed

text \<open>
  The action received is not always stored as it came, and the redo history is not
  left as it was: a second action of editor 2, contiguous with the first, is folded
  into it, and an action received after an \<^verbatim>\<open>undo\<close> empties the redo history.
\<close>

theorem external_edit_counterexample:
  "undoActions (fst (updateAndApplyByExternalTextEditAction sample_patch sample_cursor (=)
      (edit 2 1 2 [change 1 added ''b'']) ''a'' (caret 1)
      (fst (updateAndApplyByExternalTextEditAction sample_patch sample_cursor (=)
         (edit 2 0 1 [change 0 added ''a'']) [] (caret 0) (constructor (1::nat)))))) =
     [edit 2 0 2 [change 0 added ''ab'']] \<and>
   undoActions (fst (updateAndApplyByExternalTextEditAction sample_patch sample_cursor (=)
      (edit 2 1 2 [change 1 added ''b'']) ''a'' (caret 1)
      (fst (updateAndApplyByExternalTextEditAction sample_patch sample_cursor (=)
         (edit 2 0 1 [change 0 added ''a'']) [] (caret 0) (constructor (1::nat)))))) \<noteq>
     undoActions (fst (updateAndApplyByExternalTextEditAction sample_patch sample_cursor (=)
         (edit 2 0 1 [change 0 added ''a'']) [] (caret 0) (constructor (1::nat)))) @
     [edit 2 1 2 [change 1 added ''b'']] \<and>
   redoActions (fst (undo sample_patch sample_reverse ''x''
      (local_edit 0 1 [change 0 added ''x''] (constructor 1)))) =
     [edit 1 0 1 [change 0 added ''x'']] \<and>
   redoActions (fst (updateAndApplyByExternalTextEditAction sample_patch sample_cursor (=)
      (edit 2 0 1 [change 0 added ''a'']) [] (caret 0)
      (fst (undo sample_patch sample_reverse ''x''
         (local_edit 0 1 [change 0 added ''x''] (constructor 1)))))) = []"
  by (simp add: sample_defs updateAndApplyByExternalTextEditAction_def undo_def canUndo_def
      repack_def reverseAction_def applyTextEditAction_def)

section \<open>Identities in the histories\<close>

text \<open>
  Claim C2, as the code has it. In every reachable state of the stack of editor
  \<open>ident\<close>, every entry of the redo history carries \<open>ident\<close>, and every entry of the
  undo history carries \<open>ident\<close> or the identity of an action received from another
  editor: \<^verbatim>\<open>pushIntoUndoStack\<close> stores an action under the identity it came with, and
  only \<^verbatim>\<open>undo\<close> and \<^verbatim>\<open>redo\<close> rebuild an entry under the stack's own identity. With
  no action received (\<open>ext\<close> empty) every stored entry carries \<open>ident\<close>.
\<close>

theorem stored_identities:
  assumes "reachable equals ident ext this"
  shows "thisIdentify this = ident \<and>
     (\<forall>b \<in> set (redoActions this). editorIdentify b = ident) \<and>
     (\<forall>b \<in> set (undoActions this). editorIdentify b = ident \<or> editorIdentify b \<in> ext)"
  using assms
proof (induction rule: reachable.induct)
  case created
  show ?case by (simp add: constructor_def)
next
  case (cleared this)
  then show ?case by (simp add: clear_def)
next
  case (updated this changes lastSelection sel)
  define cand where "cand = \<lparr>editorIdentify = thisIdentify this,
      selectionBefore = lastSelection, selectionAfter = sel, textChanges = changes\<rparr>"
  define sent where "sent = dispatch ''actionCreate'' update cand this"
  have s: "thisIdentify sent = thisIdentify this" "undoActions sent = undoActions this"
    "redoActions sent = redoActions this"
    by (simp_all add: sent_def dispatch_def)
  show ?case
  proof (cases "pushIntoUndoStack equals cand sent")
    case (Inl e)
    then have "fst (updateByTextChanges equals changes lastSelection sel this) = sent"
      unfolding updateByTextChanges_def Let_def cand_def [symmetric] sent_def [symmetric]
      by simp
    then show ?thesis using updated.IH s by simp
  next
    case (Inr this2)
    then have f: "fst (updateByTextChanges equals changes lastSelection sel this) = this2"
      unfolding updateByTextChanges_def Let_def cand_def [symmetric] sent_def [symmetric]
      by simp
    have "editorIdentify cand = ident"
      using updated.IH by (simp add: cand_def)
    then have "editorIdentify b = ident \<or> editorIdentify b \<in> ext"
      if "b \<in> set (undoActions this2)" for b
      using push_identities [OF Inr that] updated.IH s by auto
    then show ?thesis
      using push_frame [OF Inr] updated.IH s unfolding f by simp
  qed
next
  case (received this a patch cursor content lastSelection)
  show ?case
  proof (cases "pushIntoUndoStack equals a this")
    case (Inl e)
    then show ?thesis
      using received.IH by (simp add: updateAndApplyByExternalTextEditAction_def)
  next
    case (Inr this2)
    then have f: "fst (updateAndApplyByExternalTextEditAction patch cursor equals a content
        lastSelection this) = this2"
      by (simp add: updateAndApplyByExternalTextEditAction_def)
    have "editorIdentify b = ident \<or> editorIdentify b \<in> ext"
      if "b \<in> set (undoActions this2)" for b
      using push_identities [OF Inr that] received.IH received.hyps(2) by auto
    then show ?thesis
      using push_frame [OF Inr] received.IH unfolding f by simp
  qed
next
  case (undone this patch rev_changes content)
  show ?case
  proof (cases "undoActions this = []")
    case True
    then show ?thesis using undone.IH by (simp add: undo_def canUndo_def)
  next
    case False
    show ?thesis
      using undone.IH
      by (auto simp add: undo_nonempty [OF False] repack_def dest: in_set_butlastD)
  qed
next
  case (redone this patch content)
  show ?case
  proof (cases "redoActions this = []")
    case True
    then show ?thesis using redone.IH by (simp add: redo_def canRedo_def)
  next
    case False
    show ?thesis
      using redone.IH
      by (auto simp add: redo_nonempty [OF False] repack_def dest: in_set_butlastD)
  qed
qed

theorem stored_identities_witness:
  "reachable (=) (1::nat) {2}
     (fst (undo sample_patch sample_reverse ''ab''
       (fst (updateAndApplyByExternalTextEditAction sample_patch sample_cursor (=)
          (edit 2 1 2 [change 1 added ''b'']) ''a'' (caret 1)
          (local_edit 0 1 [change 0 added ''a''] (constructor 1)))))) \<and>
   undoActions
     (fst (undo sample_patch sample_reverse ''ab''
       (fst (updateAndApplyByExternalTextEditAction sample_patch sample_cursor (=)
          (edit 2 1 2 [change 1 added ''b'']) ''a'' (caret 1)
          (local_edit 0 1 [change 0 added ''a''] (constructor 1)))))) =
     [edit 1 0 1 [change 0 added ''a'']] \<and>
   redoActions
     (fst (undo sample_patch sample_reverse ''ab''
       (fst (updateAndApplyByExternalTextEditAction sample_patch sample_cursor (=)
          (edit 2 1 2 [change 1 added ''b'']) ''a'' (caret 1)
          (local_edit 0 1 [change 0 added ''a''] (constructor 1)))))) =
     [edit 1 1 2 [change 1 added ''b'']] \<and>
   list_all (\<lambda>b. editorIdentify b = 1)
     (redoActions
       (fst (undo sample_patch sample_reverse ''ab''
         (fst (updateAndApplyByExternalTextEditAction sample_patch sample_cursor (=)
            (edit 2 1 2 [change 1 added ''b'']) ''a'' (caret 1)
            (local_edit 0 1 [change 0 added ''a''] (constructor 1)))))))"
proof -
  let ?s1 = "local_edit 0 1 [change 0 added ''a''] (constructor (1::nat))"
  let ?s2 = "fst (updateAndApplyByExternalTextEditAction sample_patch sample_cursor (=)
          (edit 2 1 2 [change 1 added ''b'']) ''a'' (caret 1) ?s1)"
  let ?s3 = "fst (undo sample_patch sample_reverse ''ab'' ?s2)"
  have r1: "reachable (=) (1::nat) {2} ?s1"
    unfolding local_edit_def by (rule reachable.updated [OF reachable.created])
  have "editorIdentify (edit (2::nat) 1 2 [change 1 added ''b'']) \<in> {2}"
    by (simp add: edit_def)
  then have r2: "reachable (=) (1::nat) {2} ?s2"
    by (rule reachable.received [OF r1])
  have r3: "reachable (=) (1::nat) {2} ?s3"
    by (rule reachable.undone [OF r2])
  have v: "undoActions ?s3 = [edit 1 0 1 [change 0 added ''a'']]"
    "redoActions ?s3 = [edit 1 1 2 [change 1 added ''b'']]"
    by (simp_all add: sample_defs updateAndApplyByExternalTextEditAction_def undo_def
        canUndo_def repack_def reverseAction_def applyTextEditAction_def)
  from stored_identities [OF r3] have "\<forall>b \<in> set (redoActions ?s3). editorIdentify b = 1"
    by (rule conjunct2 [THEN conjunct1])
  then have "list_all (\<lambda>b. editorIdentify b = 1) (redoActions ?s3)"
    by (simp add: list_all_iff)
  with r3 v show ?thesis
    by simp
qed

text \<open>
  An action received from editor 2 on the new stack of editor 1 is stored under the
  identity 2.
\<close>

theorem stored_identities_counterexample:
  "reachable (=) (1::nat) {2}
     (fst (updateAndApplyByExternalTextEditAction sample_patch sample_cursor (=)
        (edit 2 0 1 [change 0 added ''a'']) [] (caret 0) (constructor 1))) \<and>
   undoActions
     (fst (updateAndApplyByExternalTextEditAction sample_patch sample_cursor (=)
        (edit 2 0 1 [change 0 added ''a'']) [] (caret 0) (constructor (1::nat)))) =
     [edit 2 0 1 [change 0 added ''a'']] \<and>
   thisIdentify
     (fst (updateAndApplyByExternalTextEditAction sample_patch sample_cursor (=)
        (edit 2 0 1 [change 0 added ''a'']) [] (caret 0) (constructor (1::nat)))) = 1 \<and>
   editorIdentify (edit (2::nat) 0 1 [change 0 added ''a'']) \<noteq> 1"
proof -
  have "editorIdentify (edit (2::nat) 0 1 [change 0 added ''a'']) \<in> {2}"
    by (simp add: edit_def)
  then have "reachable (=) (1::nat) {2}
     (fst (updateAndApplyByExternalTextEditAction sample_patch sample_cursor (=)
        (edit 2 0 1 [change 0 added ''a'']) [] (caret 0) (constructor 1)))"
    by (rule reachable.received [OF reachable.created])
  then show ?thesis
    by (simp add: sample_defs updateAndApplyByExternalTextEditAction_def)
qed

end
